theory Spec2Isabelle
  imports Complex_Main "HOL-Library.AList"
begin

section \<open>Data model (openhands/runtime/proxy/models.py)\<close>

text \<open>
  The pydantic models become records, the status enumeration a datatype.
  A \<^verbatim>\<open>datetime\<close> is either naive, a number of microseconds on the local clock
  (what \<^verbatim>\<open>datetime.now()\<close> returns and what the worker sends), or aware, a
  number of microseconds on a local clock together with the offset of that clock from
  UTC (what pydantic makes of a timestamp that carries an offset, such as every
  RFC 3339 timestamp). The two usage percentages are doubles that the proxy only stores and
  copies; they are kept as rationals. A \<^verbatim>\<open>Dict\<close> is an association list in
  insertion order: \<open>map_of\<close> is the lookup, \<open>AList.update\<close> the assignment
  \<^verbatim>\<open>d[k] = v\<close> (in place for a known key, at the end for a new one) and
  \<open>AList.delete\<close> is \<^verbatim>\<open>del d[k]\<close>.
\<close>

datatype ServerStatus = ONLINE | OFFLINE | BUSY | MAINTENANCE

datatype datetime = Naive int | Aware int int

record ServerCapacity =
  max_sessions :: int
  current_sessions :: int
  cpu_usage :: rat
  memory_usage :: rat
  last_updated :: datetime

record RuntimeServer =
  server_id :: string
  host :: string
  port :: int
  status :: ServerStatus
  capacity :: ServerCapacity
  metadata :: "(string \<times> string) list"

record SessionInfo =
  session_id :: string
  server_id :: string
  created_at :: datetime
  last_active :: datetime
  metadata :: "(string \<times> string) list"

datatype py_error =
  ZeroDivisionError | OverflowError | TypeError | KeyError | ValueError | ValidationError

text \<open>
  The difference of two datetimes, a \<^verbatim>\<open>timedelta\<close>, in microseconds. Python
  subtracts two naive datetimes on the clock, two aware ones after bringing both to
  UTC, and raises \<^verbatim>\<open>TypeError\<close> for a naive and an aware one.
\<close>

fun datetime_sub :: "datetime \<Rightarrow> datetime \<Rightarrow> py_error + int" where
  "datetime_sub (Naive a) (Naive b) = Inr (a - b)"
| "datetime_sub (Aware a oa) (Aware b ob) = Inr ((a - oa) - (b - ob))"
| "datetime_sub (Naive a) (Aware b ob) = Inl TypeError"
| "datetime_sub (Aware a oa) (Naive b) = Inl TypeError"

datatype http_error = HTTPException int

text \<open>
  The constructor \<^verbatim>\<open>SessionInfo(session_id=..., server_id=...)\<close> as the router
  calls it. \<^verbatim>\<open>session_id\<close> is a required \<^verbatim>\<open>str\<close> field, so pydantic
  rejects \<^verbatim>\<open>None\<close> with a validation error. The two timestamps come from two
  calls of the default factory \<^verbatim>\<open>datetime.now\<close>, which returns naive
  datetimes; the model takes the two readings of the clock as a pair.
\<close>

definition SessionInfo_init ::
  "string option \<Rightarrow> string \<Rightarrow> int \<times> int \<Rightarrow> py_error + SessionInfo" where
  "SessionInfo_init sid srv clock =
     (case sid of
        None \<Rightarrow> Inl ValidationError
      | Some s \<Rightarrow> Inr \<lparr>session_id = s, server_id = srv, created_at = Naive (fst clock),
                       last_active = Naive (snd clock), metadata = []\<rparr>)"

section \<open>The registry (openhands/runtime/proxy/registry.py)\<close>

text \<open>
  The three dictionaries \<^verbatim>\<open>_servers\<close>, \<^verbatim>\<open>_sessions\<close> and
  \<^verbatim>\<open>_server_sessions\<close> of \<^verbatim>\<open>ServerRegistry\<close> (an Isabelle name cannot
  start with an underscore). Every method returns its result together with the
  registry it leaves behind.
\<close>

record ServerRegistry =
  servers :: "(string \<times> RuntimeServer) list"
  sessions :: "(string \<times> SessionInfo) list"
  server_sessions :: "(string \<times> string list) list"

definition empty_registry :: ServerRegistry where
  "empty_registry = \<lparr>servers = [], sessions = [], server_sessions = []\<rparr>"

definition get_server :: "ServerRegistry \<Rightarrow> string \<Rightarrow> RuntimeServer option" where
  "get_server reg sid = map_of (servers reg) sid"

definition list_servers :: "ServerRegistry \<Rightarrow> RuntimeServer list" where
  "list_servers reg = map snd (servers reg)"

definition get_session :: "ServerRegistry \<Rightarrow> string \<Rightarrow> SessionInfo option" where
  "get_session reg sid = map_of (sessions reg) sid"

definition register_server :: "ServerRegistry \<Rightarrow> RuntimeServer \<Rightarrow> bool \<times> ServerRegistry" where
  "register_server reg server =
     (True, reg\<lparr>servers := AList.update (RuntimeServer.server_id server) server (servers reg),
                server_sessions :=
                  AList.update (RuntimeServer.server_id server) [] (server_sessions reg)\<rparr>)"

text \<open>
  \<^verbatim>\<open>self._server_sessions.get(server_id, [])\<close>, also the value that
  \<^verbatim>\<open>pop(server_id, [])\<close> returns.
\<close>

definition session_ids_of :: "ServerRegistry \<Rightarrow> string \<Rightarrow> string list" where
  "session_ids_of reg sid =
     (case map_of (server_sessions reg) sid of None \<Rightarrow> [] | Some ids \<Rightarrow> ids)"

text \<open>
  \<^verbatim>\<open>unregister_server\<close>: the loop over the popped index deletes every listed id
  that is a key of the session table.
\<close>

definition delete_sessions ::
  "string list \<Rightarrow> (string \<times> SessionInfo) list \<Rightarrow> (string \<times> SessionInfo) list" where
  "delete_sessions ids tbl =
     fold (\<lambda>sid t. if map_of t sid \<noteq> None then AList.delete sid t else t) ids tbl"

definition unregister_server :: "ServerRegistry \<Rightarrow> string \<Rightarrow> bool \<times> ServerRegistry" where
  "unregister_server reg sid =
     (if map_of (servers reg) sid \<noteq> None then
        (let popped = session_ids_of reg sid
         in (True, reg\<lparr>servers := AList.delete sid (servers reg),
                       server_sessions := AList.delete sid (server_sessions reg),
                       sessions := delete_sessions popped (sessions reg)\<rparr>))
      else (False, reg))"

definition update_server_status ::
  "ServerRegistry \<Rightarrow> string \<Rightarrow> ServerStatus \<Rightarrow> bool \<times> ServerRegistry" where
  "update_server_status reg sid st =
     (if map_of (servers reg) sid \<noteq> None
      then (True, reg\<lparr>servers := AList.map_entry sid (\<lambda>s. s\<lparr>status := st\<rparr>) (servers reg)\<rparr>)
      else (False, reg))"

text \<open>
  \<^verbatim>\<open>register_session\<close> first stores the session, then appends its id to the
  index of its server. A server id without an index raises \<^verbatim>\<open>KeyError\<close> at the
  second statement; the handler catches it and returns \<^verbatim>\<open>False\<close>, after the
  first statement has run.
\<close>

definition register_session :: "ServerRegistry \<Rightarrow> SessionInfo \<Rightarrow> bool \<times> ServerRegistry" where
  "register_session reg session =
     (let reg1 = reg\<lparr>sessions := AList.update (session_id session) session (sessions reg)\<rparr>
      in case map_of (server_sessions reg1) (SessionInfo.server_id session) of
           None \<Rightarrow> (False, reg1)
         | Some ids \<Rightarrow>
             (True, reg1\<lparr>server_sessions :=
                          AList.update (SessionInfo.server_id session)
                            (ids @ [session_id session]) (server_sessions reg1)\<rparr>))"

section \<open>The balancer (openhands/runtime/proxy/balancer.py)\<close>

text \<open>
  Python's \<^verbatim>\<open>a / b\<close> on two integers raises \<^verbatim>\<open>ZeroDivisionError\<close> for
  \<open>b = 0\<close>; otherwise it returns the double nearest to the exact quotient, or raises
  \<^verbatim>\<open>OverflowError\<close> when the quotient is too large for a double. The rounding
  is the parameter \<open>fl\<close>, with \<open>None\<close> for a quotient out of range; nothing
  below depends on which rounding it is, and \<open>fl = (\<lambda>q. Some q)\<close> gives the exact
  quotient.
\<close>

definition py_truediv :: "(rat \<Rightarrow> 'k option) \<Rightarrow> int \<Rightarrow> int \<Rightarrow> py_error + 'k" where
  "py_truediv fl a b =
     (if b = 0 then Inl ZeroDivisionError
      else (case fl (of_int a / of_int b) of None \<Rightarrow> Inl OverflowError | Some k \<Rightarrow> Inr k))"

text \<open>The sort key \<^verbatim>\<open>lambda s: s.capacity.current_sessions / s.capacity.max_sessions\<close>.\<close>

definition load_ratio :: "(rat \<Rightarrow> 'k option) \<Rightarrow> RuntimeServer \<Rightarrow> py_error + 'k" where
  "load_ratio fl s = py_truediv fl (current_sessions (capacity s)) (max_sessions (capacity s))"

text \<open>
  \<^verbatim>\<open>sorted(xs, key=f)\<close> computes the key of every element first, so an exception
  of the key function leaves \<^verbatim>\<open>sorted\<close>, then sorts stably by the keys.
\<close>

fun keyed :: "('a \<Rightarrow> py_error + 'k) \<Rightarrow> 'a list \<Rightarrow> py_error + ('k \<times> 'a) list" where
  "keyed key [] = Inr []"
| "keyed key (x # xs) =
     (case key x of
        Inl e \<Rightarrow> Inl e
      | Inr k \<Rightarrow> (case keyed key xs of Inl e \<Rightarrow> Inl e | Inr ks \<Rightarrow> Inr ((k, x) # ks)))"

definition py_sorted :: "('a \<Rightarrow> py_error + 'k::linorder) \<Rightarrow> 'a list \<Rightarrow> py_error + 'a list" where
  "py_sorted key xs =
     (case keyed key xs of Inl e \<Rightarrow> Inl e | Inr ks \<Rightarrow> Inr (map snd (sort_key fst ks)))"

definition select_server ::
  "(rat \<Rightarrow> 'k::linorder option) \<Rightarrow> ServerRegistry \<Rightarrow> py_error + RuntimeServer option" where
  "select_server fl reg =
     (let available_servers = filter (\<lambda>s. status s = ONLINE) (list_servers reg)
      in if available_servers = [] then Inr None
         else (case py_sorted (load_ratio fl) available_servers of
                 Inl e \<Rightarrow> Inl e
               | Inr sorted_servers \<Rightarrow>
                   Inr (case sorted_servers of [] \<Rightarrow> None | s # _ \<Rightarrow> Some s)))"

section \<open>The proxy server (openhands/runtime/proxy/server.py)\<close>

subsection \<open>Heartbeat sweep\<close>

text \<open>
  \<^verbatim>\<open>_check_heartbeats\<close>: \<open>now\<close> is the reading of the clock at the start of the
  sweep, a naive datetime. \<open>check_server\<close> is the body of the loop. The difference
  \<^verbatim>\<open>now - last_heartbeat\<close> raises \<^verbatim>\<open>TypeError\<close> when the stored timestamp
  is aware. \<^verbatim>\<open>total_seconds() > self.heartbeat_timeout\<close> compares a number of
  microseconds, divided by \<open>10\<^sup>6\<close>, with 60; on microseconds this is the
  comparison with \<open>60 * 10\<^sup>6\<close>. The notification that follows the status update
  only writes a log line.
\<close>

definition heartbeat_timeout :: int where
  "heartbeat_timeout = 60"

definition check_server :: "int \<Rightarrow> RuntimeServer \<Rightarrow> ServerRegistry \<Rightarrow> py_error + ServerRegistry" where
  "check_server now server reg =
     (if status server = OFFLINE then Inr reg
      else (case datetime_sub (Naive now) (last_updated (capacity server)) of
              Inl e \<Rightarrow> Inl e
            | Inr time_since_last_heartbeat \<Rightarrow>
                if time_since_last_heartbeat > heartbeat_timeout * 1000000
                then Inr (snd (update_server_status reg (RuntimeServer.server_id server) OFFLINE))
                else Inr reg))"

text \<open>
  The loop runs over the snapshot \<^verbatim>\<open>list_servers()\<close>. Nothing inside
  \<^verbatim>\<open>_check_heartbeats\<close> catches an exception: it ends the sweep, with the
  registry as the iterations before it left it, and reaches the handler of
  \<^verbatim>\<open>_heartbeat_check_loop\<close>, which logs it and sleeps until the next sweep. An
  iteration writes only to the server stored under the \<^verbatim>\<open>server_id\<close> of its
  element; in a well-formed table that is the element itself, which the loop does not
  read again.
\<close>

fun check_loop ::
  "int \<Rightarrow> RuntimeServer list \<Rightarrow> ServerRegistry \<Rightarrow> (py_error + unit) \<times> ServerRegistry" where
  "check_loop now [] reg = (Inr (), reg)"
| "check_loop now (server # rest) reg =
     (case check_server now server reg of
        Inl e \<Rightarrow> (Inl e, reg)
      | Inr reg' \<Rightarrow> check_loop now rest reg')"

definition check_heartbeats :: "int \<Rightarrow> ServerRegistry \<Rightarrow> (py_error + unit) \<times> ServerRegistry" where
  "check_heartbeats now reg = check_loop now (list_servers reg) reg"

subsection \<open>Heartbeat endpoint\<close>

text \<open>
  \<^verbatim>\<open>handle_heartbeat(server_id, runtime_server)\<close>: \<open>path_id\<close> is the id in the URL,
  \<open>runtime_server\<close> the body. The stored server is looked up under the id of the
  body; the assignment to its \<^verbatim>\<open>capacity\<close> changes the stored object; the status
  update is made under the id of the URL.
\<close>

definition handle_heartbeat ::
  "ServerRegistry \<Rightarrow> string \<Rightarrow> RuntimeServer \<Rightarrow> (http_error + unit) \<times> ServerRegistry" where
  "handle_heartbeat reg path_id runtime_server =
     (case get_server reg (RuntimeServer.server_id runtime_server) of
        None \<Rightarrow>
          (let (success, reg') = register_server reg runtime_server
           in if \<not> success then (Inl (HTTPException 400), reg') else (Inr (), reg'))
      | Some server \<Rightarrow>
          (let reg1 = reg\<lparr>servers :=
                        AList.map_entry (RuntimeServer.server_id runtime_server)
                          (\<lambda>s. s\<lparr>capacity := capacity runtime_server\<rparr>) (servers reg)\<rparr>
           in if status server = OFFLINE
              then (Inr (), snd (update_server_status reg1 path_id ONLINE))
              else (Inr (), reg1)))"

subsection \<open>Routing of a proxied request\<close>

text \<open>
  Steps 1 and 2 of \<^verbatim>\<open>proxy_request\<close>: the choice of the target server and the
  creation of the binding. \<open>header\<close> is \<^verbatim>\<open>request.headers.get("session_id")\<close>;
  \<^verbatim>\<open>if session_id:\<close> is false for \<^verbatim>\<open>None\<close> and for the empty string. An
  \<^verbatim>\<open>HTTPException\<close> passes through the outer handler, any other exception becomes
  status 500. The result of \<^verbatim>\<open>register_session\<close> is not looked at. The
  forwarding of the request to the target (steps 3 and 4) is not part of the model.
\<close>

definition proxy_request ::
  "(rat \<Rightarrow> 'k::linorder option) \<Rightarrow> int \<times> int \<Rightarrow> ServerRegistry \<Rightarrow> string option
     \<Rightarrow> (http_error + RuntimeServer) \<times> ServerRegistry" where
  "proxy_request fl clock reg header =
     (let target_server =
            (case header of
               None \<Rightarrow> None
             | Some sid \<Rightarrow>
                 if sid = [] then None
                 else (case get_session reg sid of
                         None \<Rightarrow> None
                       | Some session \<Rightarrow> get_server reg (SessionInfo.server_id session)))
      in case target_server of
           Some server \<Rightarrow> (Inr server, reg)
         | None \<Rightarrow>
             (case select_server fl reg of
                Inl e \<Rightarrow> (Inl (HTTPException 500), reg)
              | Inr None \<Rightarrow> (Inl (HTTPException 503), reg)
              | Inr (Some server) \<Rightarrow>
                  (case SessionInfo_init header (RuntimeServer.server_id server) clock of
                     Inl e \<Rightarrow> (Inl (HTTPException 500), reg)
                   | Inr session \<Rightarrow> (Inr server, snd (register_session reg session)))))"

section \<open>Well-formed server tables and example data\<close>

text \<open>
  In a Python dictionary every key occurs once, and \<^verbatim>\<open>register_server\<close>, the
  only method that adds to \<^verbatim>\<open>_servers\<close>, stores a server under its own
  \<^verbatim>\<open>server_id\<close>. \<open>keys_consistent\<close> says both of the association list.
\<close>

definition keys_consistent :: "ServerRegistry \<Rightarrow> bool" where
  "keys_consistent reg \<longleftrightarrow>
     distinct (map fst (servers reg)) \<and>
     (\<forall>p \<in> set (servers reg). RuntimeServer.server_id (snd p) = fst p)"

text \<open>Servers and sessions with naive timestamps, \<open>t\<close> microseconds on the clock.\<close>

definition example_server ::
  "string \<Rightarrow> ServerStatus \<Rightarrow> int \<Rightarrow> int \<Rightarrow> int \<Rightarrow> RuntimeServer" where
  "example_server sid st cur mx t =
     \<lparr>RuntimeServer.server_id = sid, host = ''h1'', port = 9001, status = st,
      capacity = \<lparr>max_sessions = mx, current_sessions = cur, cpu_usage = 0,
                  memory_usage = 0, last_updated = Naive t\<rparr>,
      metadata = []\<rparr>"

definition example_session :: "string \<Rightarrow> string \<Rightarrow> int \<Rightarrow> SessionInfo" where
  "example_session sid srv t =
     \<lparr>session_id = sid, server_id = srv, created_at = Naive t, last_active = Naive t,
      metadata = []\<rparr>"

text \<open>
  A server whose registration carried the timestamp with an offset, here
  \<^verbatim>\<open>+00:00\<close>: its \<^verbatim>\<open>last_updated\<close> is aware.
\<close>

definition aware_server :: RuntimeServer where
  "aware_server =
     \<lparr>RuntimeServer.server_id = ''P'', host = ''h1'', port = 9001, status = ONLINE,
      capacity = \<lparr>max_sessions = 10, current_sessions = 0, cpu_usage = 0,
                  memory_usage = 0, last_updated = Aware 100000000 0\<rparr>,
      metadata = []\<rparr>"

text \<open>
  Two workers register: first P, with the aware timestamp, then A, with a naive one.
\<close>

definition fleet_aware :: ServerRegistry where
  "fleet_aware =
     snd (register_server (snd (register_server empty_registry aware_server))
            (example_server ''A'' ONLINE 5 10 0))"

text \<open>
  A fleet of three servers, registered one after the other: A with 5 of 10 sessions and
  B with 2 of 10, both online, B last heard of 100 seconds after A; C is offline.
\<close>

definition fleet :: ServerRegistry where
  "fleet =
     snd (register_server
       (snd (register_server
         (snd (register_server empty_registry (example_server ''A'' ONLINE 5 10 0)))
         (example_server ''B'' ONLINE 2 10 100000000)))
       (example_server ''C'' OFFLINE 0 10 0))"

text \<open>The fleet with a session S1 bound to the offline server C.\<close>

definition fleet_bound :: ServerRegistry where
  "fleet_bound = snd (register_session fleet (example_session ''S1'' ''C'' 0))"

text \<open>
  A run of the proxy from its start: the worker C registers; the first request of
  session S1 arrives and the router binds S1 to C.
\<close>

definition bound_worker :: ServerRegistry where
  "bound_worker =
     snd (proxy_request (\<lambda>q::rat. Some q) (1, 2)
       (snd (register_server empty_registry (example_server ''C'' ONLINE 0 10 0)))
       (Some ''S1''))"

text \<open>The run goes on: the worker C registers a second time, as after a restart.\<close>

definition restarted_worker :: ServerRegistry where
  "restarted_worker = snd (register_server bound_worker (example_server ''C'' ONLINE 0 10 7))"

text \<open>The fleet with a fourth server Z that is online and reports \<open>max_sessions = 0\<close>.\<close>

definition fleet_zero :: ServerRegistry where
  "fleet_zero = snd (register_server fleet (example_server ''Z'' ONLINE 0 0 0))"

text \<open>
  The registry states that the proxy can be in: it starts empty, and the registry is
  changed by the four handlers of the HTTP surface that write to it and by the sweep of
  the background task, whether the sweep ends or is cut short by an exception.
\<close>

inductive reachable :: "ServerRegistry \<Rightarrow> bool" where
  start: "reachable empty_registry"
| register: "reachable r \<Longrightarrow> reachable (snd (register_server r s))"
| unregister: "reachable r \<Longrightarrow> reachable (snd (unregister_server r k))"
| heartbeat: "reachable r \<Longrightarrow> reachable (snd (handle_heartbeat r path_id b))"
| sweep: "reachable r \<Longrightarrow> reachable (snd (check_heartbeats now r))"
| proxy: "reachable r \<Longrightarrow>
            reachable (snd (proxy_request (fl :: rat \<Rightarrow> rat option) clock r header))"

section \<open>The balancer returns a least-loaded online server\<close>

lemma keyed_Inr:
  "keyed key xs = Inr ks \<Longrightarrow> map snd ks = xs \<and> (\<forall>p \<in> set ks. key (snd p) = Inr (fst p))"
  by (induction xs arbitrary: ks) (auto split: sum.splits)

lemma keyed_Inl:
  "keyed key xs = Inl e \<Longrightarrow> \<exists>x \<in> set xs. key x = Inl e"
  by (induction xs) (auto split: sum.splits)

lemma sort_key_head_least:
  assumes "sort_key f ks = p # rest"
  shows "p \<in> set ks \<and> (\<forall>q \<in> set ks. f p \<le> f q)"
proof -
  have s: "sorted (map f (sort_key f ks))" by (rule sorted_sort_key)
  have m: "set (sort_key f ks) = set ks" by simp
  from assms m have "p \<in> set ks" by (metis list.set_intros(1))
  moreover have "\<forall>q \<in> set ks. f p \<le> f q"
  proof
    fix q assume "q \<in> set ks"
    with m assms have "q \<in> set (p # rest)" by simp
    moreover from s assms have "sorted (f p # map f rest)" by simp
    ultimately show "f p \<le> f q" by auto
  qed
  ultimately show ?thesis by simp
qed

lemma py_sorted_Inr:
  assumes "py_sorted key xs = Inr ys"
  shows "set ys = set xs \<and> length ys = length xs"
proof -
  from assms obtain ks where k: "keyed key xs = Inr ks" and y: "ys = map snd (sort_key fst ks)"
    by (auto simp: py_sorted_def split: sum.splits)
  from keyed_Inr[OF k] have m: "map snd ks = xs" by simp
  have "set xs = snd ` set ks" using m by (metis set_map)
  moreover have "length xs = length ks" using m by (metis length_map)
  ultimately show ?thesis using y by simp
qed

lemma py_sorted_head_least:
  assumes "py_sorted key xs = Inr (y # ys)"
  shows "y \<in> set xs \<and> (\<forall>x \<in> set xs. \<exists>ky kx. key y = Inr ky \<and> key x = Inr kx \<and> ky \<le> kx)"
proof -
  from assms obtain ks where k: "keyed key xs = Inr ks"
    and y: "y # ys = map snd (sort_key fst ks)"
    by (auto simp: py_sorted_def split: sum.splits)
  from y obtain p rest where p: "sort_key fst ks = p # rest" and yp: "y = snd p"
    by (cases "sort_key fst ks") auto
  from sort_key_head_least[OF p] have pin: "p \<in> set ks" and least: "\<forall>q \<in> set ks. fst p \<le> fst q"
    by auto
  from keyed_Inr[OF k] have xs: "map snd ks = xs" and keys: "\<forall>p \<in> set ks. key (snd p) = Inr (fst p)"
    by auto
  from pin xs yp have "y \<in> set xs" by force
  moreover have "\<forall>x \<in> set xs. \<exists>ky kx. key y = Inr ky \<and> key x = Inr kx \<and> ky \<le> kx"
  proof
    fix x assume "x \<in> set xs"
    with xs obtain q where q: "q \<in> set ks" "x = snd q" by force
    with keys least pin yp show "\<exists>ky kx. key y = Inr ky \<and> key x = Inr kx \<and> ky \<le> kx"
      by auto
  qed
  ultimately show ?thesis by simp
qed

lemma select_server_None_iff:
  "select_server fl reg = Inr None \<longleftrightarrow> (\<forall>s \<in> set (list_servers reg). status s \<noteq> ONLINE)"
proof
  assume a: "select_server fl reg = Inr None"
  show "\<forall>s \<in> set (list_servers reg). status s \<noteq> ONLINE"
  proof (cases "filter (\<lambda>s. status s = ONLINE) (list_servers reg) = []")
    case True
    then show ?thesis by (auto simp: filter_empty_conv)
  next
    case False
    with a obtain ys where
      ys: "py_sorted (load_ratio fl) (filter (\<lambda>s. status s = ONLINE) (list_servers reg)) = Inr ys"
      and "ys = []"
      by (auto simp: select_server_def Let_def split: sum.splits list.splits)
    with py_sorted_Inr[OF ys] False show ?thesis by auto
  qed
next
  assume "\<forall>s \<in> set (list_servers reg). status s \<noteq> ONLINE"
  then have "filter (\<lambda>s. status s = ONLINE) (list_servers reg) = []"
    by (auto simp: filter_empty_conv)
  then show "select_server fl reg = Inr None" by (simp add: select_server_def)
qed

lemma select_server_Some:
  assumes "select_server fl reg = Inr (Some s)"
  shows "s \<in> set (list_servers reg) \<and> status s = ONLINE \<and>
         (\<forall>t \<in> set (list_servers reg). status t = ONLINE \<longrightarrow>
            (\<exists>ks kt. load_ratio fl s = Inr ks \<and> load_ratio fl t = Inr kt \<and> ks \<le> kt))"
proof -
  let ?av = "filter (\<lambda>s. status s = ONLINE) (list_servers reg)"
  from assms obtain ys where ys: "py_sorted (load_ratio fl) ?av = Inr (s # ys)"
    by (auto simp: select_server_def Let_def split: sum.splits list.splits if_splits)
  from py_sorted_head_least[OF ys] show ?thesis by auto
qed

text \<open>
  The sort key raises for \<open>max_sessions = 0\<close> and for a quotient that no double
  holds. The balancer raises exactly when the key of some online server does, and what
  it raises is the error of such a key.
\<close>

lemma load_ratio_error:
  "load_ratio fl s = Inl e \<longleftrightarrow>
     (max_sessions (capacity s) = 0 \<and> e = ZeroDivisionError) \<or>
     (max_sessions (capacity s) \<noteq> 0 \<and> e = OverflowError \<and>
      fl (of_int (current_sessions (capacity s)) / of_int (max_sessions (capacity s))) = None)"
  by (auto simp: load_ratio_def py_truediv_def split: option.splits)

lemma select_server_raises:
  assumes "select_server fl reg = Inl e"
  shows "\<exists>s \<in> set (list_servers reg). status s = ONLINE \<and> load_ratio fl s = Inl e"
proof -
  let ?av = "filter (\<lambda>s. status s = ONLINE) (list_servers reg)"
  from assms have "py_sorted (load_ratio fl) ?av = Inl e"
    by (auto simp: select_server_def Let_def split: sum.splits if_splits)
  then have "keyed (load_ratio fl) ?av = Inl e"
    by (auto simp: py_sorted_def split: sum.splits)
  from keyed_Inl[OF this] show ?thesis by auto
qed

lemma select_server_raises_iff:
  "(\<exists>e. select_server fl reg = Inl e) \<longleftrightarrow>
     (\<exists>s \<in> set (list_servers reg). status s = ONLINE \<and> (\<exists>e. load_ratio fl s = Inl e))"
proof
  assume "\<exists>e. select_server fl reg = Inl e"
  then show "\<exists>s \<in> set (list_servers reg). status s = ONLINE \<and> (\<exists>e. load_ratio fl s = Inl e)"
    using select_server_raises by blast
next
  assume b: "\<exists>s \<in> set (list_servers reg). status s = ONLINE \<and> (\<exists>e. load_ratio fl s = Inl e)"
  let ?av = "filter (\<lambda>s. status s = ONLINE) (list_servers reg)"
  from b obtain s e where s: "s \<in> set ?av" "load_ratio fl s = Inl e" by auto
  have "\<not> (\<exists>ks. keyed (load_ratio fl) ?av = Inr ks)"
  proof
    assume "\<exists>ks. keyed (load_ratio fl) ?av = Inr ks"
    then obtain ks where k: "keyed (load_ratio fl) ?av = Inr ks" by blast
    from keyed_Inr[OF k] s(1) have "\<exists>k. load_ratio fl s = Inr k"
      by (metis (no_types, lifting) imageE set_map)
    with s(2) show False by simp
  qed
  then obtain e' where e': "keyed (load_ratio fl) ?av = Inl e'"
    by (cases "keyed (load_ratio fl) ?av") auto
  with s(1) have "select_server fl reg = Inl e'"
    by (auto simp: select_server_def Let_def py_sorted_def)
  then show "\<exists>e. select_server fl reg = Inl e" by blast
qed

lemma select_server_zero_capacity:
  assumes "s \<in> set (list_servers reg)" "status s = ONLINE" "max_sessions (capacity s) = 0"
  shows "\<exists>e. select_server fl reg = Inl e"
proof -
  from assms(3) have "load_ratio fl s = Inl ZeroDivisionError"
    by (simp add: load_ratio_error)
  with assms(1,2) show ?thesis
    using select_server_raises_iff[of fl reg] by blast
qed

lemmas example_defs =
  fleet_def fleet_bound_def fleet_zero_def fleet_aware_def aware_server_def empty_registry_def
  example_server_def example_session_def

lemmas registry_defs =
  register_server_def unregister_server_def update_server_status_def register_session_def
  get_server_def get_session_def list_servers_def session_ids_of_def delete_sessions_def

lemmas balancer_defs =
  select_server_def py_sorted_def load_ratio_def py_truediv_def

text \<open>
  Claim C6. For every registry state, \<open>select_server\<close> returns nothing if and only if no
  server has status online; and when it returns a server, that server is in the
  registry, has status online, and its load ratio
  \<^verbatim>\<open>current_sessions / max_sessions\<close>, as the sort key computes it, is defined and
  is at most the load ratio of every online server.
\<close>

theorem select_server_least_loaded:
  "(select_server fl reg = Inr None \<longleftrightarrow> (\<forall>s \<in> set (list_servers reg). status s \<noteq> ONLINE)) \<and>
   (\<forall>s. select_server fl reg = Inr (Some s) \<longrightarrow>
      s \<in> set (list_servers reg) \<and> status s = ONLINE \<and>
      (\<forall>t \<in> set (list_servers reg). status t = ONLINE \<longrightarrow>
         (\<exists>ks kt. load_ratio fl s = Inr ks \<and> load_ratio fl t = Inr kt \<and> ks \<le> kt)))"
  using select_server_None_iff select_server_Some by blast

text \<open>
  In the example fleet the balancer returns B (ratio 1/5), not A (ratio 1/2) and not the
  offline C.
\<close>

theorem select_server_least_loaded_witness:
  "select_server (\<lambda>q::rat. Some q) fleet = Inr (Some (example_server ''B'' ONLINE 2 10 100000000)) \<and>
   select_server (\<lambda>q::rat. Some q) fleet \<noteq> Inr None \<and>
   example_server ''A'' ONLINE 5 10 0 \<in> set (list_servers fleet) \<and>
   status (example_server ''A'' ONLINE 5 10 0) = ONLINE \<and>
   status (example_server ''B'' ONLINE 2 10 100000000) = ONLINE \<and>
   load_ratio (\<lambda>q::rat. Some q) (example_server ''B'' ONLINE 2 10 100000000) = Inr (1 / 5) \<and>
   load_ratio (\<lambda>q::rat. Some q) (example_server ''A'' ONLINE 5 10 0) = Inr (1 / 2)"
proof -
  have sel: "select_server (\<lambda>q::rat. Some q) fleet
               = Inr (Some (example_server ''B'' ONLINE 2 10 100000000))"
    by (simp add: example_defs registry_defs balancer_defs)
  have a: "example_server ''A'' ONLINE 5 10 0 \<in> set (list_servers fleet)"
    by (simp add: example_defs registry_defs)
  have sa: "status (example_server ''A'' ONLINE 5 10 0) = ONLINE"
    by (simp add: example_server_def)
  from select_server_least_loaded[of "\<lambda>q::rat. Some q" fleet] sel a sa
  have "status (example_server ''B'' ONLINE 2 10 100000000) = ONLINE \<and>
        (\<exists>ks kt. load_ratio (\<lambda>q::rat. Some q) (example_server ''B'' ONLINE 2 10 100000000) = Inr ks \<and>
                 load_ratio (\<lambda>q::rat. Some q) (example_server ''A'' ONLINE 5 10 0) = Inr kt \<and> ks \<le> kt)"
    by blast
  with sel a sa show ?thesis
    by (simp add: load_ratio_def py_truediv_def example_server_def)
qed

text \<open>
  Claim C4. \<open>select_server\<close> is well-defined when an online server has
  \<open>max_sessions = 0\<close>: the server is ineligible and no division by zero occurs. The
  code has no such guard: with the online server Z of capacity 0 in the fleet, the
  sort key divides by zero and \<open>select_server\<close> raises, although A and B are eligible.
\<close>

theorem select_server_zero_capacity_raises:
  "select_server (\<lambda>q::rat. Some q) fleet_zero = Inl ZeroDivisionError"
  by (simp add: example_defs registry_defs balancer_defs)

section \<open>Registry operations\<close>







lemma register_server_lookup:
  "fst (register_server reg s) = True \<and>
   get_server (snd (register_server reg s)) (RuntimeServer.server_id s) = Some s \<and>
   session_ids_of (snd (register_server reg s)) (RuntimeServer.server_id s) = [] \<and>
   sessions (snd (register_server reg s)) = sessions reg"
  by (simp add: register_server_def get_server_def session_ids_of_def update_conv)

text \<open>
  Claim C2. Registering a server id that is already registered overwrites the stored
  entry and leaves the session index of that id unchanged. The code assigns the empty
  list to the index on every registration: in \<open>bound_worker\<close> the index of C is
  [S1]; after C registers again the entry is replaced, the index of C is empty, and S1
  is still in the session table, bound to C.
\<close>

theorem reregistration_resets_index:
  "get_server bound_worker ''C'' = Some (example_server ''C'' ONLINE 0 10 0) \<and>
   session_ids_of bound_worker ''C'' = [''S1''] \<and>
   fst (register_server bound_worker (example_server ''C'' ONLINE 0 10 7)) = True \<and>
   get_server (snd (register_server bound_worker (example_server ''C'' ONLINE 0 10 7))) ''C''
     = Some (example_server ''C'' ONLINE 0 10 7) \<and>
   session_ids_of (snd (register_server bound_worker (example_server ''C'' ONLINE 0 10 7))) ''C''
     = [] \<and>
   get_session (snd (register_server bound_worker (example_server ''C'' ONLINE 0 10 7))) ''S1''
     = Some \<lparr>session_id = ''S1'', server_id = ''C'', created_at = Naive 1, last_active = Naive 2,
              metadata = []\<rparr>"
  by (simp add: bound_worker_def proxy_request_def SessionInfo_init_def
        example_defs registry_defs balancer_defs)

lemma register_session_unknown_server:
  "map_of (server_sessions reg) (SessionInfo.server_id sess) = None \<Longrightarrow>
     fst (register_session reg sess) = False \<and>
     get_session (snd (register_session reg sess)) (session_id sess) = Some sess"
  by (simp add: register_session_def get_session_def update_conv)

text \<open>
  Claim C3. Registering a session whose server id is unknown fails and leaves the
  registry unchanged. The code stores the session before it looks the index up: in the
  fleet, registering S9 for the unknown server X returns failure, and afterwards S9 is
  in the session table, bound to a server that does not exist.
\<close>

theorem register_session_unknown_server_stores:
  "get_server fleet ''X'' = None \<and>
   get_session fleet ''S9'' = None \<and>
   fst (register_session fleet (example_session ''S9'' ''X'' 0)) = False \<and>
   snd (register_session fleet (example_session ''S9'' ''X'' 0)) \<noteq> fleet \<and>
   get_session (snd (register_session fleet (example_session ''S9'' ''X'' 0))) ''S9''
     = Some (example_session ''S9'' ''X'' 0)"
  by (simp add: example_defs registry_defs)

text \<open>
  Claim C5 as stated fails. In \<open>fleet_bound\<close> the session S1 exists; registering S1
  again (with later timestamps) succeeds, replaces the stored session, and S1 is listed
  twice in the index of C.
\<close>

theorem duplicate_session_counterexample:
  "get_session fleet_bound ''S1'' = Some (example_session ''S1'' ''C'' 0) \<and>
   session_ids_of fleet_bound ''C'' = [''S1''] \<and>
   fst (register_session fleet_bound (example_session ''S1'' ''C'' 5)) = True \<and>
   get_session (snd (register_session fleet_bound (example_session ''S1'' ''C'' 5))) ''S1''
     = Some (example_session ''S1'' ''C'' 5) \<and>
   example_session ''S1'' ''C'' 5 \<noteq> example_session ''S1'' ''C'' 0 \<and>
   session_ids_of (snd (register_session fleet_bound (example_session ''S1'' ''C'' 5))) ''C''
     = [''S1'', ''S1'']"
  by (simp add: example_defs registry_defs)

text \<open>
  Claim C5, amended. For every session payload whose \<open>session_id\<close> already exists in
  the registry and whose \<open>server_id\<close> has a session index, \<open>register_session\<close>
  succeeds (there is no duplicate-session error) and replaces the stored session by the
  payload; every other session and the server table stay as they were.
\<close>

theorem register_session_replaces:
  assumes "get_session reg (session_id sess) = Some old"
    and "map_of (server_sessions reg) (SessionInfo.server_id sess) = Some ids"
  shows "fst (register_session reg sess) = True \<and>
         get_session (snd (register_session reg sess)) (session_id sess) = Some sess \<and>
         (\<forall>sid. sid \<noteq> session_id sess \<longrightarrow>
            get_session (snd (register_session reg sess)) sid = get_session reg sid) \<and>
         servers (snd (register_session reg sess)) = servers reg"
  using assms by (simp add: register_session_def get_session_def update_conv)

theorem register_session_replaces_witness:
  "get_session fleet_bound (session_id (example_session ''S1'' ''C'' 5))
     = Some (example_session ''S1'' ''C'' 0) \<and>
   map_of (server_sessions fleet_bound) (SessionInfo.server_id (example_session ''S1'' ''C'' 5))
     = Some [''S1''] \<and>
   fst (register_session fleet_bound (example_session ''S1'' ''C'' 5)) = True \<and>
   get_session (snd (register_session fleet_bound (example_session ''S1'' ''C'' 5)))
       (session_id (example_session ''S1'' ''C'' 5))
     = Some (example_session ''S1'' ''C'' 5) \<and>
   servers (snd (register_session fleet_bound (example_session ''S1'' ''C'' 5))) = servers fleet_bound"
proof -
  have a: "get_session fleet_bound (session_id (example_session ''S1'' ''C'' 5))
     = Some (example_session ''S1'' ''C'' 0)"
    by (simp add: example_defs registry_defs)
  have b: "map_of (server_sessions fleet_bound) (SessionInfo.server_id (example_session ''S1'' ''C'' 5))
     = Some [''S1'']"
    by (simp add: example_defs registry_defs)
  from register_session_replaces[OF a b] a b show ?thesis by simp
qed

section \<open>Heartbeats\<close>

lemma map_fst_map_entry:
  "map fst (AList.map_entry k f al) = map fst al"
  by (induction al) auto

lemma update_server_status_lookup:
  "get_server (snd (update_server_status reg k st)) k' =
     (if k' = k then map_option (\<lambda>s. s\<lparr>status := st\<rparr>) (get_server reg k) else get_server reg k')"
  by (auto simp: update_server_status_def get_server_def map_of_map_entry split: option.splits)

lemma update_server_status_frame:
  "sessions (snd (update_server_status reg k st)) = sessions reg"
  "server_sessions (snd (update_server_status reg k st)) = server_sessions reg"
  "map fst (servers (snd (update_server_status reg k st))) = map fst (servers reg)"
  by (simp_all add: update_server_status_def map_fst_map_entry)

lemma check_server_lookup:
  assumes "check_server now x reg = Inr reg'"
  shows "get_server reg' k =
     (if k = RuntimeServer.server_id x \<and> status x \<noteq> OFFLINE
           \<and> (\<exists>d. datetime_sub (Naive now) (last_updated (capacity x)) = Inr d
                    \<and> d > heartbeat_timeout * 1000000)
      then map_option (\<lambda>s. s\<lparr>status := OFFLINE\<rparr>) (get_server reg k)
      else get_server reg k)"
  using assms
  by (auto simp: check_server_def update_server_status_lookup split: if_splits sum.splits)

lemma check_server_error:
  "check_server now x reg = Inl e \<longleftrightarrow>
     e = TypeError \<and> status x \<noteq> OFFLINE
       \<and> (\<exists>t off. last_updated (capacity x) = Aware t off)"
  by (cases "last_updated (capacity x)") (auto simp: check_server_def)

lemma check_loop_other:
  "k \<notin> RuntimeServer.server_id ` set xs \<Longrightarrow>
     get_server (snd (check_loop now xs reg)) k = get_server reg k"
proof (induction xs arbitrary: reg)
  case Nil
  then show ?case by simp
next
  case (Cons a xs)
  show ?case
  proof (cases "check_server now a reg")
    case (Inl e)
    then show ?thesis by simp
  next
    case (Inr reg')
    from Cons.prems have "k \<noteq> RuntimeServer.server_id a" "k \<notin> RuntimeServer.server_id ` set xs"
      by auto
    with Cons.IH[of reg'] check_server_lookup[OF Inr, of k] Inr show ?thesis by simp
  qed
qed

lemma check_loop_member:
  assumes "distinct (map RuntimeServer.server_id xs)" "x \<in> set xs"
    and "get_server reg (RuntimeServer.server_id x) = Some x"
    and "fst (check_loop now xs reg) = Inr ()"
  shows "get_server (snd (check_loop now xs reg)) (RuntimeServer.server_id x) =
           Some (if status x \<noteq> OFFLINE
                    \<and> (\<exists>d. datetime_sub (Naive now) (last_updated (capacity x)) = Inr d
                             \<and> d > heartbeat_timeout * 1000000)
                 then x\<lparr>status := OFFLINE\<rparr> else x)"
  using assms
proof (induction xs arbitrary: reg)
  case Nil
  then show ?case by simp
next
  case (Cons a xs)
  from Cons.prems(4) obtain reg' where r: "check_server now a reg = Inr reg'"
    and rest: "fst (check_loop now xs reg') = Inr ()"
    by (cases "check_server now a reg") auto
  show ?case
  proof (cases "x = a")
    case True
    with Cons.prems(1) have "RuntimeServer.server_id x \<notin> RuntimeServer.server_id ` set xs" by auto
    then have "get_server (snd (check_loop now xs reg')) (RuntimeServer.server_id x)
                = get_server reg' (RuntimeServer.server_id x)"
      by (rule check_loop_other)
    with True r Cons.prems(3) check_server_lookup[OF r, of "RuntimeServer.server_id x"]
    show ?thesis by simp
  next
    case False
    with Cons.prems have xin: "x \<in> set xs" and d: "distinct (map RuntimeServer.server_id xs)"
      and ne: "RuntimeServer.server_id a \<noteq> RuntimeServer.server_id x"
      by auto
    from ne Cons.prems(3) check_server_lookup[OF r, of "RuntimeServer.server_id x"]
    have "get_server reg' (RuntimeServer.server_id x) = Some x" by simp
    from Cons.IH[OF d xin this rest] r show ?thesis by simp
  qed
qed

text \<open>The sweep ends without an exception when no server that it looks at has an aware
  timestamp, and with \<^verbatim>\<open>TypeError\<close> otherwise.\<close>

lemma check_loop_completes:
  "fst (check_loop now xs reg) = Inr () \<longleftrightarrow>
     (\<forall>x \<in> set xs. status x \<noteq> OFFLINE \<longrightarrow> (\<exists>t. last_updated (capacity x) = Naive t))"
proof (induction xs arbitrary: reg)
  case Nil
  then show ?case by simp
next
  case (Cons a xs)
  show ?case
  proof (cases "check_server now a reg")
    case (Inl e)
    with check_server_error[of now a reg e] show ?thesis by auto
  next
    case (Inr reg')
    have "\<not> (status a \<noteq> OFFLINE \<and> (\<exists>t off. last_updated (capacity a) = Aware t off))"
      using check_server_error[of now a reg TypeError] Inr by auto
    then have "status a \<noteq> OFFLINE \<longrightarrow> (\<exists>t. last_updated (capacity a) = Naive t)"
      by (cases "last_updated (capacity a)") auto
    with Cons.IH[of reg'] Inr show ?thesis by simp
  qed
qed

lemma check_loop_aborts:
  assumes "x \<in> set xs" "status x \<noteq> OFFLINE" "last_updated (capacity x) = Aware t off"
  shows "fst (check_loop now xs reg) = Inl TypeError"
proof -
  from assms have "fst (check_loop now xs reg) \<noteq> Inr ()"
    by (auto simp: check_loop_completes)
  moreover have "fst (check_loop now ys r) = Inl e \<Longrightarrow> e = TypeError" for ys r e
  proof (induction ys arbitrary: r)
    case Nil
    then show ?case by simp
  next
    case (Cons a ys)
    then show ?case
      by (cases "check_server now a r") (auto simp: check_server_error)
  qed
  ultimately show ?thesis
    by (cases "fst (check_loop now xs reg)") auto
qed

text \<open>
  In a well-formed server table the snapshot lists every server once, and each listed
  server is the one stored under its id.
\<close>

lemma keys_consistent_snapshot:
  assumes "keys_consistent reg"
  shows "distinct (map RuntimeServer.server_id (list_servers reg))"
    and "s \<in> set (list_servers reg) \<Longrightarrow> get_server reg (RuntimeServer.server_id s) = Some s"
proof -
  from assms have d: "distinct (map fst (servers reg))"
    and k: "\<forall>p \<in> set (servers reg). RuntimeServer.server_id (snd p) = fst p"
    by (auto simp: keys_consistent_def)
  from k have "map RuntimeServer.server_id (list_servers reg) = map fst (servers reg)"
    by (simp add: list_servers_def)
  with d show "distinct (map RuntimeServer.server_id (list_servers reg))" by simp
  assume "s \<in> set (list_servers reg)"
  then obtain p where p: "p \<in> set (servers reg)" "s = snd p" by (auto simp: list_servers_def)
  with k have "(RuntimeServer.server_id s, s) \<in> set (servers reg)" by (metis prod.collapse)
  with d show "get_server reg (RuntimeServer.server_id s) = Some s"
    by (simp add: get_server_def)
qed

text \<open>The sweep changes nothing but status fields: no server comes or goes.\<close>

lemma check_server_frame:
  assumes "check_server now x reg = Inr reg'"
  shows "sessions reg' = sessions reg \<and> server_sessions reg' = server_sessions reg \<and>
         map fst (servers reg') = map fst (servers reg)"
  using assms
  by (auto simp: check_server_def update_server_status_frame split: if_splits sum.splits)

lemma check_heartbeats_frame:
  "sessions (snd (check_heartbeats now reg)) = sessions reg \<and>
   server_sessions (snd (check_heartbeats now reg)) = server_sessions reg \<and>
   map fst (servers (snd (check_heartbeats now reg))) = map fst (servers reg)"
proof -
  have "sessions (snd (check_loop now xs r)) = sessions r \<and>
        server_sessions (snd (check_loop now xs r)) = server_sessions r \<and>
        map fst (servers (snd (check_loop now xs r))) = map fst (servers r)" for xs r
  proof (induction xs arbitrary: r)
    case Nil
    then show ?case by simp
  next
    case (Cons a xs)
    show ?case
    proof (cases "check_server now a r")
      case (Inl e)
      then show ?thesis by simp
    next
      case (Inr r')
      with Cons.IH[of r'] check_server_frame[OF Inr] show ?thesis by simp
    qed
  qed
  then show ?thesis by (simp add: check_heartbeats_def)
qed

text \<open>
  What the sweep does when every server that it looks at has a naive timestamp, in a
  well-formed server table: it ends without an exception; a server whose status is
  offline is skipped and stays as it is; every other server last heard of more than
  \<open>heartbeat_timeout\<close> ago is afterwards stored with status offline and otherwise
  unchanged; a server within the timeout stays as it is.
\<close>

lemma check_heartbeats_naive:
  assumes "keys_consistent reg"
    and "\<forall>s \<in> set (list_servers reg). status s \<noteq> OFFLINE
            \<longrightarrow> (\<exists>t. last_updated (capacity s) = Naive t)"
  shows "fst (check_heartbeats now reg) = Inr ()"
    and "s \<in> set (list_servers reg) \<Longrightarrow>
           get_server (snd (check_heartbeats now reg)) (RuntimeServer.server_id s) =
             Some (if status s \<noteq> OFFLINE
                      \<and> (\<exists>t. last_updated (capacity s) = Naive t
                               \<and> now - t > heartbeat_timeout * 1000000)
                   then s\<lparr>status := OFFLINE\<rparr> else s)"
proof -
  from assms(2) show c: "fst (check_heartbeats now reg) = Inr ()"
    by (simp add: check_heartbeats_def check_loop_completes)
  assume s: "s \<in> set (list_servers reg)"
  note snap = keys_consistent_snapshot[OF assms(1)]
  have eq: "(\<exists>d. datetime_sub (Naive now) (last_updated (capacity s)) = Inr d
                  \<and> d > heartbeat_timeout * 1000000)
            \<longleftrightarrow> (\<exists>t. last_updated (capacity s) = Naive t
                      \<and> now - t > heartbeat_timeout * 1000000)"
    by (cases "last_updated (capacity s)") auto
  from check_loop_member[OF snap(1) s snap(2)[OF s], of now] c
  show "get_server (snd (check_heartbeats now reg)) (RuntimeServer.server_id s) =
             Some (if status s \<noteq> OFFLINE
                      \<and> (\<exists>t. last_updated (capacity s) = Naive t
                               \<and> now - t > heartbeat_timeout * 1000000)
                   then s\<lparr>status := OFFLINE\<rparr> else s)"
    unfolding eq by (simp add: check_heartbeats_def)
qed

text \<open>
  A sweep of the fleet 120 seconds after A was last heard of: A (online, 120 s ago) goes
  offline, B (online, 20 s ago) stays online, C (offline) is skipped.
\<close>

lemma check_heartbeats_fleet:
  "check_heartbeats 120000000 fleet
     = (Inr (), snd (update_server_status fleet ''A'' OFFLINE))"
  "get_server (snd (check_heartbeats 120000000 fleet)) ''A''
     = Some (example_server ''A'' OFFLINE 5 10 0)"
  "get_server (snd (check_heartbeats 120000000 fleet)) ''B''
     = Some (example_server ''B'' ONLINE 2 10 100000000)"
  "get_server (snd (check_heartbeats 120000000 fleet)) ''C''
     = Some (example_server ''C'' OFFLINE 0 10 0)"
  by (simp_all add: check_heartbeats_def check_server_def heartbeat_timeout_def
        example_defs registry_defs)

text \<open>
  When the sweep comes to a server that is not offline and whose timestamp is aware, it
  ends there with \<^verbatim>\<open>TypeError\<close>.
\<close>

lemma check_heartbeats_aborts:
  assumes "x \<in> set (list_servers reg)" "status x \<noteq> OFFLINE"
    and "last_updated (capacity x) = Aware t off"
  shows "fst (check_heartbeats now reg) = Inl TypeError"
  using check_loop_aborts[OF assms] by (simp add: check_heartbeats_def)

text \<open>
  Claim C8. In every heartbeat sweep, for every server of the snapshot, a server that is
  not offline and was last heard of more than \<open>heartbeat_timeout\<close> ago is set
  offline. The sweep subtracts the stored timestamp from a naive \<open>now\<close> and catches
  nothing: in \<open>fleet_aware\<close> the first server, P, has an aware timestamp, the
  subtraction raises \<^verbatim>\<open>TypeError\<close>, and the sweep ends before it looks at A, which
  was last heard of 120 seconds ago and stays online.
\<close>

theorem check_heartbeats_aborts_on_aware_timestamp:
  "list_servers fleet_aware = [aware_server, example_server ''A'' ONLINE 5 10 0] \<and>
   status aware_server = ONLINE \<and>
   last_updated (capacity aware_server) = Aware 100000000 0 \<and>
   status (example_server ''A'' ONLINE 5 10 0) = ONLINE \<and>
   last_updated (capacity (example_server ''A'' ONLINE 5 10 0)) = Naive 0 \<and>
   120000000 - 0 > heartbeat_timeout * 1000000 \<and>
   check_heartbeats 120000000 fleet_aware = (Inl TypeError, fleet_aware) \<and>
   get_server (snd (check_heartbeats 120000000 fleet_aware)) ''A''
     = Some (example_server ''A'' ONLINE 5 10 0)"
  by (simp add: check_heartbeats_def check_server_def heartbeat_timeout_def
        example_defs registry_defs)

lemma handle_heartbeat_unknown:
  assumes "get_server reg (RuntimeServer.server_id b) = None"
  shows "handle_heartbeat reg path_id b = (Inr (), snd (register_server reg b))"
    and "get_server (snd (handle_heartbeat reg path_id b)) (RuntimeServer.server_id b) = Some b"
  using assms
  by (simp_all add: handle_heartbeat_def register_server_def get_server_def update_conv)

text \<open>
  When the id in the URL is the id in the body, a heartbeat for a known server
  overwrites the capacity and turns an offline server online.
\<close>

lemma handle_heartbeat_known:
  assumes "get_server reg (RuntimeServer.server_id b) = Some server"
    and "path_id = RuntimeServer.server_id b"
  shows "fst (handle_heartbeat reg path_id b) = Inr ()"
    and "get_server (snd (handle_heartbeat reg path_id b)) (RuntimeServer.server_id b) =
           Some (server\<lparr>capacity := capacity b,
                        status := (if status server = OFFLINE then ONLINE else status server)\<rparr>)"
  using assms
  by (auto simp: handle_heartbeat_def Let_def update_server_status_def get_server_def
        map_of_map_entry)

text \<open>
  Claim C9. For every heartbeat call with body b for a known server, the stored
  capacity is overwritten with that of b and a server stored as offline goes back to
  online. The handler looks the server up under the id of the body and sets the status
  under the id of the URL: a heartbeat for the offline C sent to the URL of X overwrites
  the capacity of C, answers with success, and leaves C offline.
\<close>

theorem heartbeat_path_id_mismatch:
  "get_server fleet ''C'' = Some (example_server ''C'' OFFLINE 0 10 0) \<and>
   fst (handle_heartbeat fleet ''X'' (example_server ''C'' ONLINE 1 10 50)) = Inr () \<and>
   get_server (snd (handle_heartbeat fleet ''X'' (example_server ''C'' ONLINE 1 10 50))) ''C''
     = Some (example_server ''C'' OFFLINE 1 10 50)"
  by (simp add: handle_heartbeat_def example_defs registry_defs)

section \<open>Routing\<close>

text \<open>
  Claim C1 as stated fails. In \<open>fleet_bound\<close> the session S1 is bound to C, which is
  offline; a request with header S1 is routed to C and the registry is not changed,
  although the balancer would select B.
\<close>

theorem affinity_offline_counterexample:
  "get_session fleet_bound ''S1'' = Some (example_session ''S1'' ''C'' 0) \<and>
   get_server fleet_bound ''C'' = Some (example_server ''C'' OFFLINE 0 10 0) \<and>
   status (example_server ''C'' OFFLINE 0 10 0) = OFFLINE \<and>
   proxy_request (\<lambda>q::rat. Some q) (1, 2) fleet_bound (Some ''S1'')
     = (Inr (example_server ''C'' OFFLINE 0 10 0), fleet_bound) \<and>
   select_server (\<lambda>q::rat. Some q) fleet_bound = Inr (Some (example_server ''B'' ONLINE 2 10 100000000))"
  by (simp add: proxy_request_def example_defs registry_defs balancer_defs)

text \<open>
  Claim C1, amended. For every proxied request whose non-empty \<open>session_id\<close> header is
  bound in the registry to a server that is in the server table, the router selects
  that server by affinity whatever its status, offline included: the balancer is not
  consulted and the registry is left unchanged.
\<close>

theorem affinity_ignores_status:
  assumes "sid \<noteq> []" "get_session reg sid = Some session"
    and "get_server reg (SessionInfo.server_id session) = Some server"
  shows "proxy_request fl clock reg (Some sid) = (Inr server, reg)"
  using assms by (simp add: proxy_request_def)

theorem affinity_ignores_status_witness:
  "''S1'' \<noteq> [] \<and>
   get_session fleet_bound ''S1'' = Some (example_session ''S1'' ''C'' 0) \<and>
   get_server fleet_bound (SessionInfo.server_id (example_session ''S1'' ''C'' 0))
     = Some (example_server ''C'' OFFLINE 0 10 0) \<and>
   proxy_request (\<lambda>q::rat. Some q) (1, 2) fleet_bound (Some ''S1'')
     = (Inr (example_server ''C'' OFFLINE 0 10 0), fleet_bound)"
proof -
  have n: "''S1'' \<noteq> []" by simp
  have s: "get_session fleet_bound ''S1'' = Some (example_session ''S1'' ''C'' 0)"
    by (simp add: example_defs registry_defs)
  have g: "get_server fleet_bound (SessionInfo.server_id (example_session ''S1'' ''C'' 0))
     = Some (example_server ''C'' OFFLINE 0 10 0)"
    by (simp add: example_defs registry_defs)
  from affinity_ignores_status[OF n s g] n s g show ?thesis by simp
qed

text \<open>With a header that has no binding, the request is bound to the server selected.\<close>

lemma present_header_binds:
  "proxy_request (\<lambda>q::rat. Some q) (1, 2) fleet (Some ''S2'')
     = (Inr (example_server ''B'' ONLINE 2 10 100000000),
        snd (register_session fleet
          \<lparr>session_id = ''S2'', server_id = ''B'', created_at = Naive 1, last_active = Naive 2,
            metadata = []\<rparr>))"
  by (simp add: proxy_request_def SessionInfo_init_def example_defs registry_defs balancer_defs)



section \<open>Every reachable server table is well-formed\<close>

lemma set_update_subset: "set (AList.update k v al) \<subseteq> insert (k, v) (set al)"
  by (induction al) auto

lemma set_map_entry_subset:
  "set (AList.map_entry k f al) \<subseteq> set al \<union> {(k, f v) | v. (k, v) \<in> set al}"
  by (induction al) auto

lemma keys_consistent_empty: "keys_consistent empty_registry"
  by (simp add: keys_consistent_def empty_registry_def)

lemma keys_consistent_register_server:
  assumes "keys_consistent reg"
  shows "keys_consistent (snd (register_server reg s))"
proof -
  from assms have "distinct (map fst (AList.update (RuntimeServer.server_id s) s (servers reg)))"
    by (simp add: keys_consistent_def distinct_update)
  moreover have "\<forall>p \<in> set (AList.update (RuntimeServer.server_id s) s (servers reg)).
                   RuntimeServer.server_id (snd p) = fst p"
    using assms set_update_subset[of "RuntimeServer.server_id s" s "servers reg"]
    by (auto simp: keys_consistent_def)
  ultimately show ?thesis by (simp add: keys_consistent_def register_server_def)
qed

lemma keys_consistent_unregister_server:
  assumes "keys_consistent reg"
  shows "keys_consistent (snd (unregister_server reg k))"
proof -
  from assms have "distinct (map fst (AList.delete k (servers reg)))"
    by (simp add: keys_consistent_def distinct_delete)
  moreover have "set (AList.delete k (servers reg)) \<subseteq> set (servers reg)"
    by (auto simp: AList.delete_eq)
  ultimately have "keys_consistent (reg\<lparr>servers := AList.delete k (servers reg)\<rparr>)"
    using assms by (auto simp: keys_consistent_def)
  with assms show ?thesis
    by (simp add: unregister_server_def Let_def keys_consistent_def)
qed

lemma keys_consistent_map_entry:
  assumes "keys_consistent reg" "\<And>s. RuntimeServer.server_id (f s) = RuntimeServer.server_id s"
  shows "keys_consistent (reg\<lparr>servers := AList.map_entry k f (servers reg)\<rparr>)"
proof -
  from assms(1) have "distinct (map fst (AList.map_entry k f (servers reg)))"
    by (simp add: keys_consistent_def distinct_map_entry)
  moreover have "\<forall>p \<in> set (AList.map_entry k f (servers reg)). RuntimeServer.server_id (snd p) = fst p"
  proof
    fix p assume "p \<in> set (AList.map_entry k f (servers reg))"
    with set_map_entry_subset[of k f "servers reg"]
    have "p \<in> set (servers reg) \<or> (\<exists>v. p = (k, f v) \<and> (k, v) \<in> set (servers reg))" by auto
    with assms show "RuntimeServer.server_id (snd p) = fst p"
      by (auto simp: keys_consistent_def)
  qed
  ultimately show ?thesis by (simp add: keys_consistent_def)
qed

lemma keys_consistent_update_server_status:
  assumes "keys_consistent reg"
  shows "keys_consistent (snd (update_server_status reg k st))"
  using keys_consistent_map_entry[OF assms, of "\<lambda>s. s\<lparr>status := st\<rparr>" k] assms
  by (simp add: update_server_status_def)

lemma register_session_servers:
  "servers (snd (register_session reg sess)) = servers reg"
  by (simp add: register_session_def Let_def split: option.splits)

lemma keys_consistent_register_session:
  assumes "keys_consistent reg"
  shows "keys_consistent (snd (register_session reg sess))"
  using assms by (simp add: keys_consistent_def register_session_servers)

lemma keys_consistent_check_server:
  assumes "keys_consistent reg" "check_server now x reg = Inr reg'"
  shows "keys_consistent reg'"
  using assms keys_consistent_update_server_status[OF assms(1)]
  by (auto simp: check_server_def split: if_splits sum.splits)

lemma keys_consistent_check_heartbeats:
  assumes "keys_consistent reg"
  shows "keys_consistent (snd (check_heartbeats now reg))"
proof -
  have "keys_consistent r \<Longrightarrow> keys_consistent (snd (check_loop now xs r))" for xs r
  proof (induction xs arbitrary: r)
    case Nil
    then show ?case by simp
  next
    case (Cons a xs)
    show ?case
    proof (cases "check_server now a r")
      case (Inl e)
      with Cons.prems show ?thesis by simp
    next
      case (Inr r')
      with Cons.IH[OF keys_consistent_check_server[OF Cons.prems Inr]] show ?thesis by simp
    qed
  qed
  with assms show ?thesis by (simp add: check_heartbeats_def)
qed

lemma keys_consistent_handle_heartbeat:
  assumes "keys_consistent reg"
  shows "keys_consistent (snd (handle_heartbeat reg path_id b))"
proof (cases "get_server reg (RuntimeServer.server_id b)")
  case None
  with keys_consistent_register_server[OF assms, of b] show ?thesis
    by (simp add: handle_heartbeat_def register_server_def)
next
  case (Some server)
  let ?reg1 = "reg\<lparr>servers := AList.map_entry (RuntimeServer.server_id b)
                          (\<lambda>s. s\<lparr>capacity := capacity b\<rparr>) (servers reg)\<rparr>"
  have k1: "keys_consistent ?reg1"
    using keys_consistent_map_entry[OF assms, of "\<lambda>s. s\<lparr>capacity := capacity b\<rparr>"] by simp
  from keys_consistent_update_server_status[OF k1] k1 Some show ?thesis
    by (simp add: handle_heartbeat_def Let_def)
qed

lemma keys_consistent_proxy_request:
  assumes "keys_consistent reg"
  shows "keys_consistent (snd (proxy_request fl clock reg header))"
  using assms keys_consistent_register_session[OF assms]
  by (auto simp: proxy_request_def Let_def split: option.splits sum.splits)

text \<open>
  Whatever requests and sweeps the proxy has served, the keys of its server table are
  distinct and every server is stored under its own id.
\<close>

lemma reachable_keys_consistent:
  "reachable reg \<Longrightarrow> keys_consistent reg"
proof (induction rule: reachable.induct)
  case start
  show ?case by (rule keys_consistent_empty)
next
  case (register r s)
  then show ?case by (simp add: keys_consistent_register_server)
next
  case (unregister r k)
  then show ?case by (simp add: keys_consistent_unregister_server)
next
  case (heartbeat r path_id b)
  then show ?case by (simp add: keys_consistent_handle_heartbeat)
next
  case (sweep r now)
  then show ?case by (simp add: keys_consistent_check_heartbeats)
next
  case (proxy r fl clock header)
  then show ?case by (simp add: keys_consistent_proxy_request)
qed

text \<open>The run that ends in \<open>restarted_worker\<close> is one the proxy can make.\<close>

lemma restarted_worker_reachable: "reachable bound_worker \<and> reachable restarted_worker"
proof -
  have "reachable (snd (register_server empty_registry (example_server ''C'' ONLINE 0 10 0)))"
    by (intro reachable.register reachable.start)
  then have b: "reachable bound_worker"
    unfolding bound_worker_def by (rule reachable.proxy)
  then have "reachable restarted_worker"
    unfolding restarted_worker_def by (rule reachable.register)
  with b show ?thesis by simp
qed

end
